theory Spec2Isabelle
  imports Main "HOL-Library.AList"
begin

section \<open>The mass pull-request commenter\<close>

text \<open>
  A shallow embedding of \<^verbatim>\<open>charts/consul/hack/mass-pr-commenter/comment.py\<close>:
  the three functions \<^verbatim>\<open>fetch\<close>, \<^verbatim>\<open>format\<close>, \<^verbatim>\<open>comment\<close> and the
  \<^verbatim>\<open>__main__\<close> block. The script calls three things of the Python standard
  library, which are modelled first: \<^verbatim>\<open>bytes.decode("utf-8")\<close>,
  \<^verbatim>\<open>json.loads\<close> and \<^verbatim>\<open>subprocess.run\<close>. Limits of the interpreter (recursion
  depth, the cap on the number of digits of an integer literal, memory) are not modelled.
\<close>

subsection \<open>Python values and exceptions\<close>

text \<open>
  A \<^verbatim>\<open>bytes\<close> object is a list of octets (\<^typ>\<open>char\<close> is an 8-bit character, so the
  literal \<^verbatim>\<open>b'[]'\<close> is \<open>''[]''\<close>); a \<^verbatim>\<open>str\<close> is a list of Unicode code points.
\<close>

type_synonym bytes = string
type_synonym str = "nat list"

definition ascii :: "string \<Rightarrow> str" where
  "ascii s = map of_char s"

datatype pyerr =
    IndexError | OSError | UnicodeDecodeError | JSONDecodeError
  | TypeError | KeyError | EOFError | ValueError

text \<open>
  The values \<^verbatim>\<open>json.loads\<close> can return. A \<^verbatim>\<open>dict\<close> keeps its keys in insertion
  order, so it is an association list with distinct keys. A \<^verbatim>\<open>float\<close> is kept as the
  text of the literal it was read from; its numeric value is never inspected by the script.
\<close>

datatype pyval =
    PyNone
  | PyBool bool
  | PyInt int
  | PyFloat str
  | PyStr str
  | PyList "pyval list"
  | PyDict "(str \<times> pyval) list"

subsection \<open>\<^verbatim>\<open>bytes.decode("utf-8")\<close>\<close>

definition is_cont :: "nat \<Rightarrow> bool" where
  "is_cont b \<longleftrightarrow> 128 \<le> b \<and> b < 192"

text \<open>
  Strict UTF-8: one to four octets per code point; overlong forms, surrogates
  (U+D800 to U+DFFF) and code points above U+10FFFF are rejected.
\<close>

fun utf8 :: "nat list \<Rightarrow> pyerr + str" where
  "utf8 [] = Inr []"
| "utf8 (b # bs) =
    (if b < 128 then map_sum id ((#) b) (utf8 bs)
     else if 192 \<le> b \<and> b < 224 then
       (case bs of
          c1 # r \<Rightarrow>
            (let cp = (b - 192) * 64 + (c1 - 128)
             in if is_cont c1 \<and> 128 \<le> cp
                then map_sum id ((#) cp) (utf8 r) else Inl UnicodeDecodeError)
        | _ \<Rightarrow> Inl UnicodeDecodeError)
     else if 224 \<le> b \<and> b < 240 then
       (case bs of
          c1 # c2 # r \<Rightarrow>
            (let cp = (b - 224) * 4096 + (c1 - 128) * 64 + (c2 - 128)
             in if is_cont c1 \<and> is_cont c2 \<and> 2048 \<le> cp \<and> \<not> (55296 \<le> cp \<and> cp < 57344)
                then map_sum id ((#) cp) (utf8 r) else Inl UnicodeDecodeError)
        | _ \<Rightarrow> Inl UnicodeDecodeError)
     else if 240 \<le> b \<and> b < 248 then
       (case bs of
          c1 # c2 # c3 # r \<Rightarrow>
            (let cp = (b - 240) * 262144 + (c1 - 128) * 4096 + (c2 - 128) * 64 + (c3 - 128)
             in if is_cont c1 \<and> is_cont c2 \<and> is_cont c3 \<and> 65536 \<le> cp \<and> cp < 1114112
                then map_sum id ((#) cp) (utf8 r) else Inl UnicodeDecodeError)
        | _ \<Rightarrow> Inl UnicodeDecodeError)
     else Inl UnicodeDecodeError)"

definition decode :: "bytes \<Rightarrow> pyerr + str" where
  "decode bs = utf8 (map of_char bs)"

subsection \<open>\<^verbatim>\<open>json.loads\<close>: the scanner\<close>

text \<open>
  The text is first cut into tokens. White space (space, tab, line feed, carriage return)
  may stand between any two tokens and nowhere else.
\<close>

datatype token = TLBrace | TRBrace | TLBrack | TRBrack | TColon | TComma | TVal pyval

definition is_ws :: "nat \<Rightarrow> bool" where
  "is_ws c \<longleftrightarrow> c = 32 \<or> c = 9 \<or> c = 10 \<or> c = 13"

definition is_digit :: "nat \<Rightarrow> bool" where
  "is_digit c \<longleftrightarrow> 48 \<le> c \<and> c \<le> 57"

definition hex_val :: "nat \<Rightarrow> nat option" where
  "hex_val c =
    (if 48 \<le> c \<and> c \<le> 57 then Some (c - 48)
     else if 65 \<le> c \<and> c \<le> 70 then Some (c - 55)
     else if 97 \<le> c \<and> c \<le> 102 then Some (c - 87)
     else None)"

text \<open>The four hexadecimal digits of a \<^verbatim>\<open>\uXXXX\<close> escape.\<close>

fun hex4 :: "str \<Rightarrow> nat option" where
  "hex4 (a # b # c # d # r) =
    (case (hex_val a, hex_val b, hex_val c, hex_val d) of
       (Some w, Some x, Some y, Some z) \<Rightarrow> Some (((w * 16 + x) * 16 + y) * 16 + z)
     | _ \<Rightarrow> None)"
| "hex4 _ = None"

text \<open>The one-letter escapes: \<^verbatim>\<open>\" \\ \/ \b \f \n \r \t\<close>.\<close>

definition unescape :: "nat \<Rightarrow> nat option" where
  "unescape e =
    (if e = 34 then Some 34 else if e = 92 then Some 92 else if e = 47 then Some 47
     else if e = 98 then Some 8 else if e = 102 then Some 12 else if e = 110 then Some 10
     else if e = 114 then Some 13 else if e = 116 then Some 9 else None)"

text \<open>
  \<open>scanstring acc s\<close> reads the rest of a string literal, the opening quote already
  consumed, and returns its content and what follows the closing quote. Control characters
  below U+0020 are refused (strict mode); a \<^verbatim>\<open>\uXXXX\<close> escape for a high surrogate
  directly followed by one for a low surrogate gives one code point.
\<close>

function scanstring :: "str \<Rightarrow> str \<Rightarrow> (str \<times> str) option" where
  "scanstring acc [] = None"
| "scanstring acc (c # cs) =
    (if c = 34 then Some (acc, cs)
     else if c < 32 then None
     else if c \<noteq> 92 then scanstring (acc @ [c]) cs
     else (case cs of
             [] \<Rightarrow> None
           | e # r \<Rightarrow>
               if e = 117 then
                 (case hex4 r of
                    None \<Rightarrow> None
                  | Some uni \<Rightarrow>
                      if 55296 \<le> uni \<and> uni \<le> 56319 \<and> take 2 (drop 4 r) = [92, 117] then
                        (case hex4 (drop 6 r) of
                           None \<Rightarrow> None
                         | Some uni2 \<Rightarrow>
                             if 56320 \<le> uni2 \<and> uni2 \<le> 57343
                             then scanstring
                                    (acc @ [65536 + ((uni - 55296) * 1024 + (uni2 - 56320))])
                                    (drop 10 r)
                             else scanstring (acc @ [uni]) (drop 4 r))
                      else scanstring (acc @ [uni]) (drop 4 r))
               else (case unescape e of
                       None \<Rightarrow> None
                     | Some x \<Rightarrow> scanstring (acc @ [x]) r)))"
  by pat_completeness auto
termination
  by (relation "measure (\<lambda>(acc, s). length s)") auto

text \<open>
  A number is \<^verbatim>\<open>-?(0|[1-9][0-9]*)(\.[0-9]+)?([eE][-+]?[0-9]+)?\<close>, the longest
  prefix of the text of that form. Without fraction and exponent it is an \<^verbatim>\<open>int\<close>,
  otherwise a \<^verbatim>\<open>float\<close>.
\<close>

definition nat_of_digits :: "str \<Rightarrow> nat" where
  "nat_of_digits ds = foldl (\<lambda>n d. n * 10 + (d - 48)) 0 ds"

definition scan_int :: "str \<Rightarrow> (str \<times> str) option" where
  "scan_int s =
    (case s of
       [] \<Rightarrow> None
     | d # r \<Rightarrow>
         if d = 48 then Some ([d], r)
         else if is_digit d then Some (d # takeWhile is_digit r, dropWhile is_digit r)
         else None)"

definition scan_frac :: "str \<Rightarrow> str \<times> str" where
  "scan_frac s =
    (case s of
       [] \<Rightarrow> ([], s)
     | p # r \<Rightarrow>
         if p = 46 \<and> takeWhile is_digit r \<noteq> []
         then (p # takeWhile is_digit r, dropWhile is_digit r)
         else ([], s))"

definition scan_exp :: "str \<Rightarrow> str \<times> str" where
  "scan_exp s =
    (case s of
       [] \<Rightarrow> ([], s)
     | e # r \<Rightarrow>
         if e = 101 \<or> e = 69 then
           (let sgn = (case r of [] \<Rightarrow> [] | c # _ \<Rightarrow> if c = 45 \<or> c = 43 then [c] else []);
                r' = drop (length sgn) r
            in if takeWhile is_digit r' \<noteq> []
               then (e # sgn @ takeWhile is_digit r', dropWhile is_digit r')
               else ([], s))
         else ([], s))"

definition scan_number :: "str \<Rightarrow> (pyval \<times> str) option" where
  "scan_number s =
    (let neg = (take 1 s = [45]);
         s1 = (if neg then drop 1 s else s)
     in case scan_int s1 of
          None \<Rightarrow> None
        | Some (ds, r1) \<Rightarrow>
            (let (frac, r2) = scan_frac r1;
                 (ex, r3) = scan_exp r2
             in if frac = [] \<and> ex = []
                then Some (PyInt (if neg then - int (nat_of_digits ds) else int (nat_of_digits ds)), r3)
                else Some (PyFloat ((if neg then [45] else []) @ ds @ frac @ ex), r3)))"

lemma scanstring_shorter: "scanstring acc s = Some (t, r) \<Longrightarrow> length r < length s"
proof (induction acc s rule: scanstring.induct)
  case (1 acc)
  then show ?case by simp
next
  case (2 acc c cs)
  show ?case
  proof (cases "c = 34 \<or> c < 32 \<or> c \<noteq> 92")
    case True
    with "2.prems" "2.IH"(1) show ?thesis
      by (fastforce split: if_splits)
  next
    case False
    then have c: "c \<noteq> 34" "\<not> c < 32" "c = 92" by auto
    with "2.prems" obtain e r0 where cs: "cs = e # r0"
      by (cases cs) auto
    show ?thesis
    proof (cases "e = 117")
      case False
      with "2.prems" c cs obtain x where x: "unescape e = Some x"
        and s: "scanstring (acc @ [x]) r0 = Some (t, r)"
        by (auto split: option.splits)
      from "2.IH"(5) [OF c(1) c(2) _ cs False x] c s have "length r < length r0" by simp
      with cs show ?thesis by simp
    next
      case True
      with "2.prems" c cs obtain uni where u: "hex4 r0 = Some uni"
        by (auto split: option.splits)
      show ?thesis
      proof (cases "55296 \<le> uni \<and> uni \<le> 56319 \<and> take 2 (drop 4 r0) = [92, 117]")
        case False
        with "2.prems" c cs True u have s: "scanstring (acc @ [uni]) (drop 4 r0) = Some (t, r)"
          by (auto split: if_splits)
        from "2.IH"(4) [OF c(1) c(2) _ cs True u False] c s
        have "length r < length (drop 4 r0)" by simp
        with cs show ?thesis by simp
      next
        case hi: True
        with "2.prems" c cs True u obtain uni2 where u2: "hex4 (drop 6 r0) = Some uni2"
          by (auto split: option.splits)
        show ?thesis
        proof (cases "56320 \<le> uni2 \<and> uni2 \<le> 57343")
          case lo: True
          with "2.prems" c cs True u hi u2
          have s: "scanstring (acc @ [65536 + ((uni - 55296) * 1024 + (uni2 - 56320))]) (drop 10 r0)
                     = Some (t, r)"
            by (auto split: if_splits)
          from "2.IH"(2) [OF c(1) c(2) _ cs True u hi u2 lo] c s
          have "length r < length (drop 10 r0)" by simp
          with cs show ?thesis by simp
        next
          case lo: False
          with "2.prems" c cs True u hi u2
          have s: "scanstring (acc @ [uni]) (drop 4 r0) = Some (t, r)"
            by (auto split: if_splits)
          from "2.IH"(3) [OF c(1) c(2) _ cs True u hi u2 lo] c s
          have "length r < length (drop 4 r0)" by simp
          with cs show ?thesis by simp
        qed
      qed
    qed
  qed
qed

lemma scan_int_shorter: "scan_int s = Some (ds, r) \<Longrightarrow> length r < length s"
  by (auto simp: scan_int_def less_Suc_eq_le length_dropWhile_le split: list.splits if_splits)

lemma scan_frac_shorter: "scan_frac s = (f, r) \<Longrightarrow> length r \<le> length s"
  by (auto simp: scan_frac_def le_SucI length_dropWhile_le split: list.splits if_splits)

lemma scan_exp_shorter: "scan_exp s = (e, r) \<Longrightarrow> length r \<le> length s"
proof (cases s)
  case Nil
  assume "scan_exp s = (e, r)"
  with Nil show ?thesis by (simp add: scan_exp_def)
next
  case (Cons a t)
  assume h: "scan_exp s = (e, r)"
  have "length (dropWhile is_digit (drop n t)) \<le> Suc (length t)" for n
    by (rule order_trans [OF length_dropWhile_le]) simp
  with h Cons show ?thesis
    by (auto simp: scan_exp_def Let_def split: if_splits)
qed

lemma scan_number_shorter: "scan_number s = Some (v, r) \<Longrightarrow> length r < length s"
proof -
  assume h: "scan_number s = Some (v, r)"
  define s1 where "s1 = (if take 1 s = [45] then drop 1 s else s)"
  from h obtain ds r1 where a: "scan_int s1 = Some (ds, r1)"
    by (auto simp: scan_number_def Let_def s1_def split: option.splits)
  obtain f r2 where b: "scan_frac r1 = (f, r2)" by (cases "scan_frac r1")
  obtain e r3 where c: "scan_exp r2 = (e, r3)" by (cases "scan_exp r2")
  from h a b c have "r = r3"
    by (auto simp: scan_number_def Let_def s1_def split: if_splits)
  moreover have "length r3 \<le> length r2" using c by (rule scan_exp_shorter)
  moreover have "length r2 \<le> length r1" using b by (rule scan_frac_shorter)
  moreover have "length r1 < length s1" using a by (rule scan_int_shorter)
  moreover have "length s1 \<le> length s" by (simp add: s1_def)
  ultimately show ?thesis by simp
qed

function tokenize :: "str \<Rightarrow> token list option" where
  "tokenize [] = Some []"
| "tokenize (c # cs) =
    (if is_ws c then tokenize cs
     else if c = 123 then map_option ((#) TLBrace) (tokenize cs)
     else if c = 125 then map_option ((#) TRBrace) (tokenize cs)
     else if c = 91 then map_option ((#) TLBrack) (tokenize cs)
     else if c = 93 then map_option ((#) TRBrack) (tokenize cs)
     else if c = 58 then map_option ((#) TColon) (tokenize cs)
     else if c = 44 then map_option ((#) TComma) (tokenize cs)
     else if c = 34 then
       (case scanstring [] cs of
          None \<Rightarrow> None
        | Some (t, r) \<Rightarrow> map_option ((#) (TVal (PyStr t))) (tokenize r))
     else if take 4 (c # cs) = ascii ''null'' then
       map_option ((#) (TVal PyNone)) (tokenize (drop 3 cs))
     else if take 4 (c # cs) = ascii ''true'' then
       map_option ((#) (TVal (PyBool True))) (tokenize (drop 3 cs))
     else if take 5 (c # cs) = ascii ''false'' then
       map_option ((#) (TVal (PyBool False))) (tokenize (drop 4 cs))
     else
       (case scan_number (c # cs) of
          Some (v, r) \<Rightarrow> map_option ((#) (TVal v)) (tokenize r)
        | None \<Rightarrow>
            if take 3 (c # cs) = ascii ''NaN'' then
              map_option ((#) (TVal (PyFloat (ascii ''NaN'')))) (tokenize (drop 2 cs))
            else if take 8 (c # cs) = ascii ''Infinity'' then
              map_option ((#) (TVal (PyFloat (ascii ''Infinity'')))) (tokenize (drop 7 cs))
            else if take 9 (c # cs) = ascii ''-Infinity'' then
              map_option ((#) (TVal (PyFloat (ascii ''-Infinity'')))) (tokenize (drop 8 cs))
            else None))"
  by pat_completeness auto
termination
proof (relation "measure length")
  fix c cs x2 x y
  assume "scanstring [] cs = Some x2" "(x, y) = x2"
  then show "(y, c # cs) \<in> measure length"
    using scanstring_shorter [of "[]" cs x y] by simp
next
  fix c cs x2 x y
  assume "scan_number (c # cs) = Some x2" "(x, y) = x2"
  then show "(y, c # cs) \<in> measure length"
    using scan_number_shorter [of "c # cs" x y] by simp
qed auto

subsection \<open>\<^verbatim>\<open>json.loads\<close>: the parser\<close>

text \<open>
  The tokens drive a pushdown automaton. A frame of the stack is an array or an object
  under construction; \<open>FKey kvs k\<close> is an object whose key \<open>k\<close> waits for its value.
  A key that occurs again keeps its place and takes the new value, as \<^verbatim>\<open>dict\<close> does.
\<close>

datatype frame =
    FArr "pyval list"
  | FObj "(str \<times> pyval) list"
  | FKey "(str \<times> pyval) list" str

datatype expect = EValue | EValueOrClose | EKeyOrClose | EKey | EColon | ESep | EEnd pyval

type_synonym pstate = "expect \<times> frame list"

text \<open>A finished value goes to the enclosing frame, or ends the document.\<close>

fun reduce :: "pyval \<Rightarrow> frame list \<Rightarrow> pstate option" where
  "reduce v [] = Some (EEnd v, [])"
| "reduce v (FArr xs # st) = Some (ESep, FArr (xs @ [v]) # st)"
| "reduce v (FKey kvs k # st) = Some (ESep, FObj (AList.update k v kvs) # st)"
| "reduce v (FObj kvs # st) = None"

definition start_value :: "frame list \<Rightarrow> token \<Rightarrow> pstate option" where
  "start_value st tok =
    (case tok of
       TVal v \<Rightarrow> reduce v st
     | TLBrack \<Rightarrow> Some (EValueOrClose, FArr [] # st)
     | TLBrace \<Rightarrow> Some (EKeyOrClose, FObj [] # st)
     | _ \<Rightarrow> None)"

definition start_key :: "frame list \<Rightarrow> token \<Rightarrow> pstate option" where
  "start_key st tok =
    (case (tok, st) of
       (TVal (PyStr k), FObj kvs # st') \<Rightarrow> Some (EColon, FKey kvs k # st')
     | _ \<Rightarrow> None)"

definition close_array :: "frame list \<Rightarrow> pstate option" where
  "close_array st = (case st of FArr xs # st' \<Rightarrow> reduce (PyList xs) st' | _ \<Rightarrow> None)"

definition close_object :: "frame list \<Rightarrow> pstate option" where
  "close_object st = (case st of FObj kvs # st' \<Rightarrow> reduce (PyDict kvs) st' | _ \<Rightarrow> None)"

definition step :: "pstate \<Rightarrow> token \<Rightarrow> pstate option" where
  "step ps tok =
    (case ps of (e, st) \<Rightarrow>
      (case e of
         EValue \<Rightarrow> start_value st tok
       | EValueOrClose \<Rightarrow> if tok = TRBrack then close_array st else start_value st tok
       | EKeyOrClose \<Rightarrow> if tok = TRBrace then close_object st else start_key st tok
       | EKey \<Rightarrow> start_key st tok
       | EColon \<Rightarrow> if tok = TColon then Some (EValue, st) else None
       | ESep \<Rightarrow>
           (case st of
              FArr xs # st' \<Rightarrow>
                if tok = TComma then Some (EValue, st)
                else if tok = TRBrack then close_array st else None
            | FObj kvs # st' \<Rightarrow>
                if tok = TComma then Some (EKey, st)
                else if tok = TRBrace then close_object st else None
            | _ \<Rightarrow> None)
       | EEnd v \<Rightarrow> None))"

fun steps :: "pstate \<Rightarrow> token list \<Rightarrow> pstate option" where
  "steps ps [] = Some ps"
| "steps ps (tok # ts) = (case step ps tok of None \<Rightarrow> None | Some ps' \<Rightarrow> steps ps' ts)"

definition parse :: "token list \<Rightarrow> pyerr + pyval" where
  "parse ts =
    (case steps (EValue, []) ts of
       Some (EEnd v, []) \<Rightarrow> Inr v
     | _ \<Rightarrow> Inl JSONDecodeError)"

text \<open>
  \<^verbatim>\<open>json.loads\<close> of a \<^verbatim>\<open>str\<close>: a leading byte-order mark U+FEFF is refused, every
  other failure of the scanner or the parser is a \<^verbatim>\<open>JSONDecodeError\<close> as well.
\<close>

definition loads :: "str \<Rightarrow> pyerr + pyval" where
  "loads s =
    (if take 1 s = [65279] then Inl JSONDecodeError
     else case tokenize s of
            None \<Rightarrow> Inl JSONDecodeError
          | Some ts \<Rightarrow> parse ts)"

subsection \<open>Iteration and subscription\<close>

text \<open>
  \<^verbatim>\<open>for pr in v\<close>: a list gives its elements, a \<^verbatim>\<open>dict\<close> its keys, a \<^verbatim>\<open>str\<close> its
  characters as one-character strings; nothing else that \<^verbatim>\<open>json.loads\<close> returns is
  iterable.
\<close>

fun py_iter :: "pyval \<Rightarrow> pyerr + pyval list" where
  "py_iter (PyList xs) = Inr xs"
| "py_iter (PyDict kvs) = Inr (map (\<lambda>kv. PyStr (fst kv)) kvs)"
| "py_iter (PyStr s) = Inr (map (\<lambda>c. PyStr [c]) s)"
| "py_iter _ = Inl TypeError"

text \<open>
  \<^verbatim>\<open>v[k]\<close> for a \<^verbatim>\<open>str\<close> key \<open>k\<close>: a \<^verbatim>\<open>dict\<close> looks the key up and raises
  \<^verbatim>\<open>KeyError\<close> when it is absent; a \<^verbatim>\<open>str\<close> or a list wants an integer index, and
  the other values are not subscriptable, which are both a \<^verbatim>\<open>TypeError\<close>.
\<close>

fun py_getitem :: "pyval \<Rightarrow> str \<Rightarrow> pyerr + pyval" where
  "py_getitem (PyDict kvs) k = (case map_of kvs k of None \<Rightarrow> Inl KeyError | Some v \<Rightarrow> Inr v)"
| "py_getitem _ k = Inl TypeError"

subsection \<open>The extractor: \<^verbatim>\<open>format\<close>\<close>

text \<open>
  \<^verbatim>\<open>[pr["number"] for pr in xs]\<close>, from left to right; the first element that raises
  ends the comprehension.
\<close>

fun numbers :: "pyval list \<Rightarrow> pyerr + pyval list" where
  "numbers [] = Inr []"
| "numbers (pr # prs) =
    (case py_getitem pr (ascii ''number'') of
       Inl e \<Rightarrow> Inl e
     | Inr n \<Rightarrow> (case numbers prs of Inl e \<Rightarrow> Inl e | Inr ns \<Rightarrow> Inr (n # ns)))"

text \<open>
  \<^verbatim>\<open>return [pr["number"] for pr in loads(prs.decode("utf-8"))]\<close>
\<close>

definition format :: "bytes \<Rightarrow> pyerr + pyval list" where
  "format prs =
    (case decode prs of
       Inl e \<Rightarrow> Inl e
     | Inr s \<Rightarrow>
         (case loads s of
            Inl e \<Rightarrow> Inl e
          | Inr v \<Rightarrow>
              (case py_iter v of
                 Inl e \<Rightarrow> Inl e
               | Inr xs \<Rightarrow> numbers xs)))"

subsection \<open>The outside world\<close>

text \<open>
  What the script does to the outside is a trace of events: the command lines it runs
  with \<^verbatim>\<open>subprocess.run\<close>, what it writes to standard output, and the lines it reads
  from standard input. The lines still to be read are part of the world.
\<close>

datatype event = Run "str list" | Write str | Read str

record world =
  trace :: "event list"
  stdin :: "str list"

text \<open>
  The environment is a parameter. \<open>gh env h args\<close> is what running the command line
  \<open>args\<close> gives after the events \<open>h\<close>: the bytes the process writes to its standard
  output, or the exception \<^verbatim>\<open>run\<close> raises when the process cannot be started. The
  exit status is not part of it: the script never looks at it. \<open>text_of env\<close> is
  \<^verbatim>\<open>str(v)\<close> for a \<^verbatim>\<open>float\<close>, a list or a \<^verbatim>\<open>dict\<close>.
\<close>

record env =
  gh :: "event list \<Rightarrow> str list \<Rightarrow> pyerr + bytes"
  text_of :: "pyval \<Rightarrow> str"

text \<open>\<^verbatim>\<open>run(args, stdout=PIPE).stdout\<close>\<close>

definition run :: "env \<Rightarrow> str list \<Rightarrow> world \<Rightarrow> (pyerr + bytes) \<times> world" where
  "run env args w = (gh env (trace w) args, w\<lparr>trace := trace w @ [Run args]\<rparr>)"

text \<open>\<^verbatim>\<open>str(v)\<close>: an \<^verbatim>\<open>int\<close> in decimal, a \<^verbatim>\<open>str\<close> as it is.\<close>

fun digits :: "nat \<Rightarrow> str" where
  "digits n = (if n < 10 then [48 + n] else digits (n div 10) @ [48 + n mod 10])"

declare digits.simps [simp del]

definition py_str :: "env \<Rightarrow> pyval \<Rightarrow> str" where
  "py_str env v =
    (case v of
       PyInt i \<Rightarrow> if i < 0 then 45 # digits (nat (- i)) else digits (nat i)
     | PyStr s \<Rightarrow> s
     | PyNone \<Rightarrow> ascii ''None''
     | PyBool b \<Rightarrow> if b then ascii ''True'' else ascii ''False''
     | _ \<Rightarrow> text_of env v)"

text \<open>
  \<^verbatim>\<open>input(prompt)\<close> writes the prompt and reads one line, without its line feed;
  at the end of the input it raises \<^verbatim>\<open>EOFError\<close>. \<^verbatim>\<open>print(s)\<close> writes \<open>s\<close> and
  a line feed.
\<close>

definition input :: "str \<Rightarrow> world \<Rightarrow> (pyerr + str) \<times> world" where
  "input p w =
    (case stdin w of
       [] \<Rightarrow> (Inl EOFError, w\<lparr>trace := trace w @ [Write p]\<rparr>)
     | l # ls \<Rightarrow> (Inr l, w\<lparr>trace := trace w @ [Write p, Read l], stdin := ls\<rparr>))"

definition print :: "str \<Rightarrow> world \<Rightarrow> world" where
  "print s w = w\<lparr>trace := trace w @ [Write (s @ [10])]\<rparr>"

subsection \<open>The lister: \<^verbatim>\<open>fetch\<close>\<close>

text \<open>
  \<^verbatim>\<open>run(["gh", "pr", "list", "--json", '"number"', "-R", repo], stdout=PIPE).stdout\<close>.
  The fifth argument is written \<^verbatim>\<open>'"number"'\<close> in the source: a string of eight
  characters, the first and the last of which are double quotes (code point 34).
\<close>

definition fetch_args :: "str \<Rightarrow> str list" where
  "fetch_args repo =
    [ascii ''gh'', ascii ''pr'', ascii ''list'', ascii ''--json'',
     [34] @ ascii ''number'' @ [34], ascii ''-R'', repo]"

definition fetch :: "env \<Rightarrow> str \<Rightarrow> world \<Rightarrow> (pyerr + bytes) \<times> world" where
  "fetch env repo w = run env (fetch_args repo) w"

subsection \<open>The commenter: \<^verbatim>\<open>comment\<close>\<close>

text \<open>\<^verbatim>\<open>["gh", "pr", "comment", str(pr), "-F", comment_file, "-R", repo]\<close>\<close>

definition comment_args :: "env \<Rightarrow> pyval \<Rightarrow> str \<Rightarrow> str \<Rightarrow> str list" where
  "comment_args env pr repo comment_file =
    [ascii ''gh'', ascii ''pr'', ascii ''comment'', py_str env pr,
     ascii ''-F'', comment_file, ascii ''-R'', repo]"

text \<open>
  \<^verbatim>\<open>"".join(run([...]).stdout.decode("utf-8") for pr in prs)\<close>: the generator is
  run to its end, one identifier after the other, before the pieces are joined; an
  exception of \<^verbatim>\<open>run\<close> or of \<^verbatim>\<open>decode\<close> ends it at once.
\<close>

fun comment :: "env \<Rightarrow> pyval list \<Rightarrow> str \<Rightarrow> str \<Rightarrow> world \<Rightarrow> (pyerr + str) \<times> world" where
  "comment env [] repo comment_file w = (Inr [], w)"
| "comment env (pr # prs) repo comment_file w =
    (case run env (comment_args env pr repo comment_file) w of
       (Inl e, w1) \<Rightarrow> (Inl e, w1)
     | (Inr out, w1) \<Rightarrow>
         (case decode out of
            Inl e \<Rightarrow> (Inl e, w1)
          | Inr s \<Rightarrow>
              (case comment env prs repo comment_file w1 of
                 (Inl e, w2) \<Rightarrow> (Inl e, w2)
               | (Inr rest, w2) \<Rightarrow> (Inr (s @ rest), w2))))"

subsection \<open>The entry point\<close>

text \<open>
  \<^verbatim>\<open>f"Comment on {len(prs)} pull requests to the {repo} repository with the
  contents of {comment_file}? [y/N] "\<close>
\<close>

definition prompt :: "nat \<Rightarrow> str \<Rightarrow> str \<Rightarrow> str" where
  "prompt n repo comment_file =
    ascii ''Comment on '' @ digits n @ ascii '' pull requests to the '' @ repo
    @ ascii '' repository with the contents of '' @ comment_file @ ascii ''? [y/N] ''"

text \<open>
  The \<^verbatim>\<open>__main__\<close> block, with \<open>argv\<close> the list \<^verbatim>\<open>sys.argv\<close> (the script's name
  first). \<^verbatim>\<open>argv[1]\<close> and \<^verbatim>\<open>argv[2]\<close> raise \<^verbatim>\<open>IndexError\<close> on a list that is
  too short.
\<close>

definition main :: "env \<Rightarrow> str list \<Rightarrow> world \<Rightarrow> (pyerr + unit) \<times> world" where
  "main env argv w =
    (if length argv \<le> 1 then (Inl IndexError, w)
     else if length argv \<le> 2 then (Inl IndexError, w)
     else
       (let repo = argv ! 1; comment_file = argv ! 2
        in case fetch env repo w of
             (Inl e, w1) \<Rightarrow> (Inl e, w1)
           | (Inr bs, w1) \<Rightarrow>
               (case format bs of
                  Inl e \<Rightarrow> (Inl e, w1)
                | Inr prs \<Rightarrow>
                    (case input (prompt (length prs) repo comment_file) w1 of
                       (Inl e, w2) \<Rightarrow> (Inl e, w2)
                     | (Inr response, w2) \<Rightarrow>
                         if response = ascii ''y'' \<or> response = ascii ''Y'' then
                           (case comment env prs repo comment_file w2 of
                              (Inl e, w3) \<Rightarrow> (Inl e, w3)
                            | (Inr out, w3) \<Rightarrow> (Inr (), print (ascii ''Done'') w3))
                         else (Inr (), w2)))))"

section \<open>Properties\<close>

subsection \<open>Notions used to state them\<close>

text \<open>
  The \<^verbatim>\<open>number\<close> field of an element of the listing, if the element is an object
  that has one.
\<close>

fun number_field :: "pyval \<Rightarrow> pyval option" where
  "number_field (PyDict kvs) = map_of kvs (ascii ''number'')"
| "number_field v = None"

text \<open>Whether a value is an \<^verbatim>\<open>int\<close>.\<close>

fun is_int :: "pyval \<Rightarrow> bool" where
  "is_int (PyInt i) = True"
| "is_int v = False"

text \<open>
  The decoded standard output of each invocation the commenter makes for \<open>prs\<close>, one
  after the other, starting after the events \<open>h\<close>; \<open>Inl\<close> where the process cannot be
  started or its output is not UTF-8.
\<close>

fun outputs :: "env \<Rightarrow> pyval list \<Rightarrow> str \<Rightarrow> str \<Rightarrow> event list \<Rightarrow> (pyerr + str) list" where
  "outputs env [] repo comment_file h = []"
| "outputs env (pr # prs) repo comment_file h =
    (case gh env h (comment_args env pr repo comment_file) of
       Inl e \<Rightarrow> Inl e
     | Inr out \<Rightarrow> decode out)
    # outputs env prs repo comment_file (h @ [Run (comment_args env pr repo comment_file)])"

text \<open>
  Environments to run the script in: \<open>garbled\<close>, where the tool answers every
  command line with the single byte \<^verbatim>\<open>0xFF\<close>, which is not UTF-8; \<open>unlisted\<close>,
  where it answers with the text \<^verbatim>\<open>not json\<close>; \<open>scripted\<close>,
  where it lists the pull requests 5 and 7 of \<^verbatim>\<open>org/repo\<close> and answers a comment on
  5 with \<^verbatim>\<open>five;\<close> and any other comment with \<^verbatim>\<open>seven;\<close>; and the world
  \<open>start ls\<close> in which nothing has happened yet and the lines \<open>ls\<close> wait on standard
  input.
\<close>

definition garbled :: env where
  "garbled = \<lparr>gh = (\<lambda>h args. Inr [CHR 0xFF]), text_of = (\<lambda>v. [])\<rparr>"

definition scripted :: env where
  \<open>scripted =
    \<lparr>gh = (\<lambda>h args.
        if args = fetch_args (ascii ''org/repo'') then Inr ''[{"number":5},{"number":7}]''
        else if take 1 (drop 3 args) = [ascii ''5''] then Inr ''five;''
        else Inr ''seven;''),
     text_of = (\<lambda>v. [])\<rparr>\<close>

definition unlisted :: env where
  "unlisted = \<lparr>gh = (\<lambda>h args. Inr ''not json''), text_of = (\<lambda>v. [])\<rparr>"

definition start :: "str list \<Rightarrow> world" where
  "start ls = \<lparr>trace = [], stdin = ls\<rparr>"

subsection \<open>The extractor, element by element\<close>

lemma getitem_number:
  "py_getitem x (ascii ''number'') = Inr v \<longleftrightarrow> number_field x = Some v"
  by (cases x) (auto split: option.splits)

lemma getitem_number_fails:
  "(\<exists>e. py_getitem x (ascii ''number'') = Inl e) \<longleftrightarrow> number_field x = None"
  by (cases x) (auto split: option.splits)

lemma numbers_iff: "numbers xs = Inr ns \<longleftrightarrow> map number_field xs = map Some ns"
proof (induction xs arbitrary: ns)
  case Nil
  then show ?case by auto
next
  case (Cons x xs)
  show ?case
  proof (cases "py_getitem x (ascii ''number'')")
    case (Inl e)
    then have "number_field x = None" using getitem_number_fails by blast
    with Inl show ?thesis by auto
  next
    case (Inr v)
    then have v: "number_field x = Some v" by (simp add: getitem_number)
    have "numbers (x # xs) = Inr ns \<longleftrightarrow> (\<exists>ms. ns = v # ms \<and> numbers xs = Inr ms)"
      using Inr by (cases "numbers xs") auto
    also have "\<dots> \<longleftrightarrow> (\<exists>ms. ns = v # ms \<and> map number_field xs = map Some ms)"
      by (simp add: Cons.IH)
    also have "\<dots> \<longleftrightarrow> map number_field (x # xs) = map Some ns"
      using v by (cases ns) auto
    finally show ?thesis .
  qed
qed

lemma numbers_fails:
  "(\<exists>e. numbers xs = Inl e) \<longleftrightarrow> (\<exists>x \<in> set xs. number_field x = None)"
proof (induction xs)
  case Nil
  then show ?case by simp
next
  case (Cons x xs)
  show ?case
  proof (cases "py_getitem x (ascii ''number'')")
    case (Inl e)
    then have "number_field x = None" using getitem_number_fails by blast
    with Inl show ?thesis by auto
  next
    case (Inr v)
    then have v: "number_field x = Some v" by (simp add: getitem_number)
    with Inr Cons.IH show ?thesis
      by (cases "numbers xs") auto
  qed
qed


subsection \<open>The extractor on some inputs\<close>

lemmas json_eval =
  decode_def loads_def ascii_def is_ws_def scan_number_def scan_int_def scan_frac_def
  scan_exp_def is_digit_def nat_of_digits_def parse_def step_def start_value_def start_key_def
  close_array_def close_object_def

lemma format_one_two: \<open>format ''[{"number":1},{"number":2}]'' = Inr [PyInt 1, PyInt 2]\<close>
  by (simp add: format_def json_eval)

lemma format_five_seven: \<open>format ''[{"number":5},{"number":7}]'' = Inr [PyInt 5, PyInt 7]\<close>
  by (simp add: format_def json_eval)

lemma format_empty_array: "format ''[]'' = Inr []"
  by (simp add: format_def json_eval)

subsection \<open>The commenter, invocation by invocation\<close>

lemma comment_all_ok:
  "\<forall>r \<in> set (outputs env prs repo f (trace w)). \<not> isl r \<Longrightarrow>
   comment env prs repo f w =
     (Inr (concat (map projr (outputs env prs repo f (trace w)))),
      w\<lparr>trace := trace w @ map (\<lambda>pr. Run (comment_args env pr repo f)) prs\<rparr>)"
proof (induction prs arbitrary: w)
  case Nil
  then show ?case by simp
next
  case (Cons pr prs)
  let ?a = "comment_args env pr repo f"
  let ?w1 = "w\<lparr>trace := trace w @ [Run ?a]\<rparr>"
  from Cons.prems obtain out s where out: "gh env (trace w) ?a = Inr out" and s: "decode out = Inr s"
    by (cases "gh env (trace w) ?a"; cases "decode (projr (gh env (trace w) ?a))") auto
  from Cons.prems have "\<forall>r \<in> set (outputs env prs repo f (trace ?w1)). \<not> isl r"
    by simp
  from Cons.IH [OF this] out s show ?case
    by (simp add: run_def)
qed

lemma comment_returns_ok:
  "fst (comment env prs repo f w) = Inr t \<Longrightarrow>
   \<forall>r \<in> set (outputs env prs repo f (trace w)). \<not> isl r"
proof (induction prs arbitrary: w t)
  case Nil
  then show ?case by simp
next
  case (Cons pr prs)
  let ?a = "comment_args env pr repo f"
  let ?w1 = "w\<lparr>trace := trace w @ [Run ?a]\<rparr>"
  from Cons.prems obtain out s t' where out: "gh env (trace w) ?a = Inr out"
    and s: "decode out = Inr s" and r: "fst (comment env prs repo f ?w1) = Inr t'"
    by (auto simp: run_def split: sum.splits prod.splits)
  from Cons.IH [OF r] out s show ?case by simp
qed

lemma comment_world:
  "snd (comment env prs repo f w) =
     w\<lparr>trace := trace w @ map (\<lambda>pr. Run (comment_args env pr repo f))
       (take (Suc (length (takeWhile (\<lambda>r. \<not> isl r) (outputs env prs repo f (trace w))))) prs)\<rparr>"
proof (induction prs arbitrary: w)
  case Nil
  then show ?case by simp
next
  case (Cons pr prs)
  let ?a = "comment_args env pr repo f"
  let ?w1 = "w\<lparr>trace := trace w @ [Run ?a]\<rparr>"
  let ?ok = "\<exists>out s. gh env (trace w) ?a = Inr out \<and> decode out = Inr s"
  show ?case
  proof (cases ?ok)
    case False
    then have "snd (comment env (pr # prs) repo f w) = ?w1"
      by (auto simp: run_def split: sum.splits prod.splits)
    moreover from False
    have "isl (case gh env (trace w) ?a of Inl e \<Rightarrow> Inl e | Inr out \<Rightarrow> decode out)"
      by (cases "gh env (trace w) ?a"; cases "decode (projr (gh env (trace w) ?a))") auto
    ultimately show ?thesis by simp
  next
    case True
    then have eq: "snd (comment env (pr # prs) repo f w) = snd (comment env prs repo f ?w1)"
      by (auto simp: run_def split: sum.splits prod.splits)
    from True
    have "\<not> isl (case gh env (trace w) ?a of Inl e \<Rightarrow> Inl e | Inr out \<Rightarrow> decode out)"
      by auto
    with eq Cons.IH [of ?w1] show ?thesis by simp
  qed
qed

lemma prompt_not_done: "prompt n repo f \<noteq> ascii ''Done'' @ [10]"
  by (simp add: prompt_def ascii_def)

lemma decode_garbled: "decode [CHR 0xFF] = Inl UnicodeDecodeError"
  by (simp add: decode_def)

lemma outputs_scripted:
  "outputs scripted [PyInt 5, PyInt 7] (ascii ''org/repo'') (ascii ''msg.md'') []
     = [Inr (ascii ''five;''), Inr (ascii ''seven;'')]"
  by (simp add: scripted_def comment_args_def py_str_def digits.simps [of 5] digits.simps [of 7]
      fetch_args_def decode_def ascii_def)

lemma format_not_json: "format ''not json'' = Inl JSONDecodeError"
  by (simp add: format_def json_eval)

lemma is_int_iff: "is_int v \<longleftrightarrow> (\<exists>i. v = PyInt i)"
  by (cases v) auto

lemma numbers_of_strings: "numbers (map (\<lambda>x. PyStr (k x)) xs) = (if xs = [] then Inr [] else Inl TypeError)"
  by (cases xs) simp_all

subsection \<open>The entry point, step by step\<close>

lemma main_short: "length argv < 3 \<Longrightarrow> main env argv w = (Inl IndexError, w)"
  by (auto simp: main_def)

lemma main_extraction_fails:
  assumes "2 < length argv" and "gh env (trace w) (fetch_args (argv ! 1)) = Inr bs"
    and "format bs = Inl e"
  shows "main env argv w = (Inl e, w\<lparr>trace := trace w @ [Run (fetch_args (argv ! 1))]\<rparr>)"
  using assms by (simp add: main_def fetch_def run_def)

lemma main_asked:
  assumes "2 < length argv" and "gh env (trace w) (fetch_args (argv ! 1)) = Inr bs"
    and "format bs = Inr prs" and "stdin w = response # rest"
  shows "main env argv w =
    (let w2 = w\<lparr>trace := trace w @ [Run (fetch_args (argv ! 1)),
                  Write (prompt (length prs) (argv ! 1) (argv ! 2)), Read response],
                stdin := rest\<rparr>
     in if response = ascii ''y'' \<or> response = ascii ''Y''
        then (case comment env prs (argv ! 1) (argv ! 2) w2 of
                (Inl e, w3) \<Rightarrow> (Inl e, w3)
              | (Inr out, w3) \<Rightarrow> (Inr (), w3\<lparr>trace := trace w3 @ [Write (ascii ''Done'' @ [10])]\<rparr>))
        else (Inr (), w2))"
  using assms
  by (auto simp: main_def fetch_def run_def input_def print_def Let_def split: prod.splits sum.splits)

subsection \<open>The claims\<close>

text \<open>
  C3. For every input that decodes as UTF-8 to a JSON array of objects that each have a
  \<^verbatim>\<open>number\<close> field, the extractor returns the values of these fields, in the order of
  the array; for \<^verbatim>\<open>[{"number":1},{"number":2}]\<close> it returns \<^verbatim>\<open>[1, 2]\<close>.
\<close>

theorem format_returns_numbers:
  assumes "decode bs = Inr s" and "loads s = Inr (PyList xs)"
    and "\<forall>x \<in> set xs. number_field x \<noteq> None"
  shows \<open>(\<exists>ns. format bs = Inr ns \<and> map number_field xs = map Some ns)
    \<and> format ''[{"number":1},{"number":2}]'' = Inr [PyInt 1, PyInt 2]\<close>
proof -
  from assms(3) have "\<not> (\<exists>e. numbers xs = Inl e)"
    by (simp add: numbers_fails)
  then obtain ns where ns: "numbers xs = Inr ns"
    by (cases "numbers xs") auto
  then have "map number_field xs = map Some ns"
    by (simp add: numbers_iff)
  moreover from assms(1,2) ns have "format bs = Inr ns"
    by (simp add: format_def)
  ultimately show ?thesis
    using format_one_two by blast
qed

theorem format_returns_numbers_witness:
  \<open>format ''[{"number":7}, {"title":null, "number":5}]'' = Inr [PyInt 7, PyInt 5]\<close>
proof -
  let ?bs = \<open>''[{"number":7}, {"title":null, "number":5}]''\<close>
  let ?xs = "[PyDict [(ascii ''number'', PyInt 7)],
              PyDict [(ascii ''title'', PyNone), (ascii ''number'', PyInt 5)]]"
  have d: "decode ?bs = Inr (map of_char ?bs)"
    by (simp add: decode_def)
  have l: "loads (map of_char ?bs) = Inr (PyList ?xs)"
    by (simp add: json_eval)
  have f: "\<forall>x \<in> set ?xs. number_field x \<noteq> None"
    by (simp add: ascii_def)
  from format_returns_numbers [OF d l f]
  obtain ns where "format ?bs = Inr ns" and "map number_field ?xs = map Some ns"
    by blast
  then show ?thesis
    by (auto simp: ascii_def)
qed

text \<open>
  C6. For the empty JSON array \<^verbatim>\<open>[]\<close> the extractor returns the empty sequence, and
  the commenter applied to the empty sequence runs nothing: it returns the empty string
  and leaves the world as it was.
\<close>

theorem empty_listing:
  "format ''[]'' = Inr [] \<and> comment env [] repo comment_file w = (Inr [], w)"
  using format_empty_array by simp

text \<open>
  C1, as the code has it. The commenter runs the tool for the elements of \<open>prs\<close> one
  after the other, in sequence order, each time with the command line
  \<^verbatim>\<open>gh pr comment <str(pr)> -F <comment_file> -R <repo>\<close>, the file and the
  repository unchanged, up to and including the first invocation that cannot be started
  or whose output is not UTF-8, where it raises. When there is no such invocation it runs
  the tool exactly once per element, so twice for \<^verbatim>\<open>[5, 7]\<close>.
\<close>

theorem comment_invocations:
  "snd (comment env prs repo comment_file w) =
     w\<lparr>trace := trace w @
        map (\<lambda>pr. Run [ascii ''gh'', ascii ''pr'', ascii ''comment'', py_str env pr,
                        ascii ''-F'', comment_file, ascii ''-R'', repo])
          (take (Suc (length (takeWhile (\<lambda>r. \<not> isl r)
             (outputs env prs repo comment_file (trace w))))) prs)\<rparr>
   \<and> ((\<forall>r \<in> set (outputs env prs repo comment_file (trace w)). \<not> isl r) \<longrightarrow>
        snd (comment env prs repo comment_file w) =
          w\<lparr>trace := trace w @
             map (\<lambda>pr. Run [ascii ''gh'', ascii ''pr'', ascii ''comment'', py_str env pr,
                             ascii ''-F'', comment_file, ascii ''-R'', repo]) prs\<rparr>)"
  using comment_world [of env prs repo comment_file w]
    comment_all_ok [of env prs repo comment_file w]
  by (simp add: comment_args_def)

theorem comment_invocations_witness:
  "trace (snd (comment scripted [PyInt 5, PyInt 7] (ascii ''org/repo'') (ascii ''msg.md'') (start [])))
     = [Run [ascii ''gh'', ascii ''pr'', ascii ''comment'', ascii ''5'',
             ascii ''-F'', ascii ''msg.md'', ascii ''-R'', ascii ''org/repo''],
        Run [ascii ''gh'', ascii ''pr'', ascii ''comment'', ascii ''7'',
             ascii ''-F'', ascii ''msg.md'', ascii ''-R'', ascii ''org/repo'']]"
proof -
  have ok: "\<forall>r \<in> set (outputs scripted [PyInt 5, PyInt 7] (ascii ''org/repo'') (ascii ''msg.md'')
      (trace (start []))). \<not> isl r"
    by (simp add: start_def outputs_scripted del: outputs.simps)
  from comment_invocations [of scripted "[PyInt 5, PyInt 7]" "ascii ''org/repo''"
      "ascii ''msg.md''" "start []", THEN conjunct2, THEN mp, OF ok]
  show ?thesis
    by (simp add: start_def py_str_def digits.simps [of 5] digits.simps [of 7] ascii_def)
qed

text \<open>
  C1 as stated fails: with a tool whose output is not UTF-8 the commenter, given the two
  identifiers 5 and 7, raises after the first invocation and never makes the second.
\<close>

theorem comment_invocations_counterexample:
  "comment garbled [PyInt 5, PyInt 7] (ascii ''org/repo'') (ascii ''msg.md'') (start [])
     = (Inl UnicodeDecodeError,
        \<lparr>trace = [Run [ascii ''gh'', ascii ''pr'', ascii ''comment'', ascii ''5'',
                        ascii ''-F'', ascii ''msg.md'', ascii ''-R'', ascii ''org/repo'']],
         stdin = []\<rparr>)"
  by (simp add: run_def garbled_def start_def decode_garbled comment_args_def py_str_def
      digits.simps [of 5] ascii_def)

text \<open>
  C2. The commenter returns a string exactly when every invocation gives decodable
  output, and the string is then the concatenation, in sequence order, of the decoded
  outputs, with nothing between them; for the empty list it is the empty string.
\<close>

theorem comment_output:
  "(fst (comment env prs repo comment_file w) = Inr t \<longleftrightarrow>
      (\<forall>r \<in> set (outputs env prs repo comment_file (trace w)). \<not> isl r)
      \<and> t = concat (map projr (outputs env prs repo comment_file (trace w))))
   \<and> fst (comment env [] repo comment_file w) = Inr []"
  using comment_all_ok [of env prs repo comment_file w]
    comment_returns_ok [of env prs repo comment_file w t]
  by auto

theorem comment_output_witness:
  "fst (comment scripted [PyInt 5, PyInt 7] (ascii ''org/repo'') (ascii ''msg.md'') (start []))
     = Inr (ascii ''five;seven;'')"
proof -
  have ok: "(\<forall>r \<in> set (outputs scripted [PyInt 5, PyInt 7] (ascii ''org/repo'') (ascii ''msg.md'')
      (trace (start []))). \<not> isl r)
    \<and> ascii ''five;seven;'' = concat (map projr (outputs scripted [PyInt 5, PyInt 7]
        (ascii ''org/repo'') (ascii ''msg.md'') (trace (start []))))"
    by (simp add: start_def outputs_scripted del: outputs.simps) (simp add: ascii_def)
  from comment_output [of scripted "[PyInt 5, PyInt 7]" "ascii ''org/repo''"
      "ascii ''msg.md''" "start []" "ascii ''five;seven;''", THEN conjunct1, THEN iffD2, OF ok]
  show ?thesis .
qed

text \<open>
  C4. Once the listing is fetched and extracted and a line \<open>response\<close> is read, the
  entry point runs the comment step exactly when \<open>response\<close> is \<^verbatim>\<open>y\<close> or
  \<^verbatim>\<open>Y\<close>. For every other line it returns without an error, and all it has done is
  fetch the listing, write the question and read the line: no comment invocation. The
  completion marker \<^verbatim>\<open>Done\<close> is written exactly when the answer was \<^verbatim>\<open>y\<close> or
  \<^verbatim>\<open>Y\<close> and the comment step returned, after the events of that step.
\<close>

theorem confirmation_gate:
  assumes "2 < length argv"
    and "gh env (trace w) (fetch_args (argv ! 1)) = Inr bs"
    and "format bs = Inr prs"
    and "stdin w = response # rest"
  shows "(let w2 = w\<lparr>trace := trace w @ [Run (fetch_args (argv ! 1)),
                       Write (prompt (length prs) (argv ! 1) (argv ! 2)), Read response],
                     stdin := rest\<rparr>;
              yes = (response = ascii ''y'' \<or> response = ascii ''Y'');
              marker = Write (ascii ''Done'' @ [10])
          in (yes \<longrightarrow> main env argv w =
                (case comment env prs (argv ! 1) (argv ! 2) w2 of
                   (Inl e, w3) \<Rightarrow> (Inl e, w3)
                 | (Inr out, w3) \<Rightarrow> (Inr (), w3\<lparr>trace := trace w3 @ [marker]\<rparr>)))
           \<and> (\<not> yes \<longrightarrow> main env argv w = (Inr (), w2))
           \<and> (marker \<in> set (drop (length (trace w)) (trace (snd (main env argv w))))
                \<longleftrightarrow> yes \<and> \<not> isl (fst (comment env prs (argv ! 1) (argv ! 2) w2))))"
proof -
  define w2 where "w2 = w\<lparr>trace := trace w @ [Run (fetch_args (argv ! 1)),
      Write (prompt (length prs) (argv ! 1) (argv ! 2)), Read response], stdin := rest\<rparr>"
  define yes where "yes \<longleftrightarrow> response = ascii ''y'' \<or> response = ascii ''Y''"
  define marker where "marker = Write (ascii ''Done'' @ [10])"
  obtain r w3 where c: "comment env prs (argv ! 1) (argv ! 2) w2 = (r, w3)"
    by (cases "comment env prs (argv ! 1) (argv ! 2) w2")
  have m: "main env argv w =
      (if yes then (case comment env prs (argv ! 1) (argv ! 2) w2 of
                      (Inl e, w3) \<Rightarrow> (Inl e, w3)
                    | (Inr out, w3) \<Rightarrow> (Inr (), w3\<lparr>trace := trace w3 @ [marker]\<rparr>))
       else (Inr (), w2))"
    using main_asked [OF assms] unfolding w2_def yes_def marker_def Let_def .
  from comment_world [of env prs "argv ! 1" "argv ! 2" w2] c
  obtain ps where w3: "w3 = w2\<lparr>trace := trace w2 @ map (\<lambda>pr. Run (comment_args env pr (argv ! 1) (argv ! 2))) ps\<rparr>"
    by auto
  have p: "Write (prompt (length prs) (argv ! 1) (argv ! 2)) \<noteq> marker"
    by (simp add: marker_def prompt_not_done)
  have "marker \<in> set (drop (length (trace w)) (trace (snd (main env argv w)))) \<longleftrightarrow> yes \<and> \<not> isl r"
  proof (cases yes)
    case False
    with m p show ?thesis by (auto simp: w2_def marker_def)
  next
    case True
    show ?thesis
    proof (cases r)
      case (Inl e)
      with True m c w3 p show ?thesis by (auto simp: w2_def marker_def)
    next
      case (Inr out)
      with True m c w3 show ?thesis by (auto simp: w2_def)
    qed
  qed
  with m c show ?thesis
    unfolding Let_def w2_def [symmetric] yes_def [symmetric] marker_def [symmetric]
    by simp
qed

theorem confirmation_gate_witness:
  "main scripted [ascii ''comment.py'', ascii ''org/repo'', ascii ''msg.md''] (start [ascii ''yes''])
     = (Inr (),
        \<lparr>trace = [Run (fetch_args (ascii ''org/repo'')),
                  Write (prompt 2 (ascii ''org/repo'') (ascii ''msg.md'')),
                  Read (ascii ''yes'')],
         stdin = []\<rparr>)
   \<and> main scripted [ascii ''comment.py'', ascii ''org/repo'', ascii ''msg.md''] (start [ascii ''Y''])
     = (Inr (),
        \<lparr>trace = [Run (fetch_args (ascii ''org/repo'')),
                  Write (prompt 2 (ascii ''org/repo'') (ascii ''msg.md'')),
                  Read (ascii ''Y''),
                  Run [ascii ''gh'', ascii ''pr'', ascii ''comment'', ascii ''5'',
                       ascii ''-F'', ascii ''msg.md'', ascii ''-R'', ascii ''org/repo''],
                  Run [ascii ''gh'', ascii ''pr'', ascii ''comment'', ascii ''7'',
                       ascii ''-F'', ascii ''msg.md'', ascii ''-R'', ascii ''org/repo''],
                  Write (ascii ''Done'' @ [10])],
         stdin = []\<rparr>)"
proof -
  let ?argv = "[ascii ''comment.py'', ascii ''org/repo'', ascii ''msg.md'']"
  let ?bs = \<open>''[{"number":5},{"number":7}]''\<close>
  have len: "2 < length ?argv" by simp
  have g: "gh scripted (trace (start ls)) (fetch_args (?argv ! 1)) = Inr ?bs" for ls
    by (simp add: scripted_def)
  have st: "stdin (start [l]) = l # []" for l
    by (simp add: start_def)
  have no: "\<not> (ascii ''yes'' = ascii ''y'' \<or> ascii ''yes'' = ascii ''Y'')"
    by (simp add: ascii_def)
  have c: "comment scripted [PyInt 5, PyInt 7] (ascii ''org/repo'') (ascii ''msg.md'')
      \<lparr>trace = [Run (fetch_args (ascii ''org/repo'')),
                Write (prompt 2 (ascii ''org/repo'') (ascii ''msg.md'')), Read (ascii ''Y'')],
       stdin = []\<rparr>
    = (Inr (ascii ''five;seven;''),
       \<lparr>trace = [Run (fetch_args (ascii ''org/repo'')),
                Write (prompt 2 (ascii ''org/repo'') (ascii ''msg.md'')), Read (ascii ''Y''),
                Run [ascii ''gh'', ascii ''pr'', ascii ''comment'', ascii ''5'',
                     ascii ''-F'', ascii ''msg.md'', ascii ''-R'', ascii ''org/repo''],
                Run [ascii ''gh'', ascii ''pr'', ascii ''comment'', ascii ''7'',
                     ascii ''-F'', ascii ''msg.md'', ascii ''-R'', ascii ''org/repo'']],
       stdin = []\<rparr>)"
    by (simp add: run_def scripted_def comment_args_def py_str_def digits.simps [of 5]
        digits.simps [of 7] fetch_args_def decode_def ascii_def)
  from confirmation_gate [OF len g [of "[ascii ''yes'']"] format_five_seven st [of "ascii ''yes''"]] no
  have a: "main scripted ?argv (start [ascii ''yes''])
     = (Inr (),
        \<lparr>trace = [Run (fetch_args (ascii ''org/repo'')),
                  Write (prompt 2 (ascii ''org/repo'') (ascii ''msg.md'')),
                  Read (ascii ''yes'')],
         stdin = []\<rparr>)"
    by (simp add: Let_def start_def numeral_2_eq_2)
  from confirmation_gate [OF len g [of "[ascii ''Y'']"] format_five_seven st [of "ascii ''Y''"]] c
  have b: "main scripted ?argv (start [ascii ''Y''])
     = (Inr (),
        \<lparr>trace = [Run (fetch_args (ascii ''org/repo'')),
                  Write (prompt 2 (ascii ''org/repo'') (ascii ''msg.md'')),
                  Read (ascii ''Y''),
                  Run [ascii ''gh'', ascii ''pr'', ascii ''comment'', ascii ''5'',
                       ascii ''-F'', ascii ''msg.md'', ascii ''-R'', ascii ''org/repo''],
                  Run [ascii ''gh'', ascii ''pr'', ascii ''comment'', ascii ''7'',
                       ascii ''-F'', ascii ''msg.md'', ascii ''-R'', ascii ''org/repo''],
                  Write (ascii ''Done'' @ [10])],
         stdin = []\<rparr>)"
    by (simp add: Let_def start_def numeral_2_eq_2)
  from a b show ?thesis by (rule conjI)
qed

text \<open>
  C5. The extractor raises on every input that is not UTF-8 or not JSON (such as
  \<^verbatim>\<open>not json\<close>) and on every JSON array with an element that is not an object
  with a \<^verbatim>\<open>number\<close> field. In the entry point the failure comes right after the
  listing was fetched: nothing is written, nothing is read, no comment is posted.
\<close>

theorem extraction_failure:
  "(decode bs = Inl e \<longrightarrow> format bs = Inl e)
   \<and> (decode bs = Inr s \<and> loads s = Inl e \<longrightarrow> format bs = Inl e)
   \<and> (decode bs = Inr s \<and> loads s = Inr (PyList xs) \<and> (\<exists>x \<in> set xs. number_field x = None)
        \<longrightarrow> isl (format bs))
   \<and> format ''not json'' = Inl JSONDecodeError
   \<and> (2 < length argv \<and> gh env (trace w) (fetch_args (argv ! 1)) = Inr bs \<and> format bs = Inl e
        \<longrightarrow> main env argv w = (Inl e, w\<lparr>trace := trace w @ [Run (fetch_args (argv ! 1))]\<rparr>))"
proof -
  have "isl (format bs)"
    if "decode bs = Inr s" "loads s = Inr (PyList xs)" "\<exists>x \<in> set xs. number_field x = None"
  proof -
    from that(3) obtain e' where "numbers xs = Inl e'"
      using numbers_fails [of xs] by blast
    with that(1,2) show ?thesis by (simp add: format_def)
  qed
  then show ?thesis
    using format_not_json main_extraction_fails [of argv env w bs e]
    by (auto simp: format_def)
qed

theorem extraction_failure_witness:
  \<open>format [CHR 0xFF] = Inl UnicodeDecodeError
   \<and> format ''not json'' = Inl JSONDecodeError
   \<and> isl (format ''[{"number":1},{"id":2}]'')
   \<and> main unlisted [ascii ''comment.py'', ascii ''org/repo'', ascii ''msg.md''] (start [ascii ''y''])
       = (Inl JSONDecodeError, \<lparr>trace = [Run (fetch_args (ascii ''org/repo''))], stdin = [ascii ''y'']\<rparr>)\<close>
proof -
  let ?argv = "[ascii ''comment.py'', ascii ''org/repo'', ascii ''msg.md'']"
  let ?cs = \<open>''[{"number":1},{"id":2}]''\<close>
  let ?xs = "[PyDict [(ascii ''number'', PyInt 1)], PyDict [(ascii ''id'', PyInt 2)]]"
  have d: "decode ''not json'' = Inr (ascii ''not json'')"
    by (simp add: decode_def ascii_def)
  have l: "loads (ascii ''not json'') = Inl JSONDecodeError"
    by (simp add: json_eval)
  have dc: "decode ?cs = Inr (map of_char ?cs)"
    by (simp add: decode_def)
  have lc: "loads (map of_char ?cs) = Inr (PyList ?xs)"
    by (simp add: json_eval)
  have fc: "\<exists>x \<in> set ?xs. number_field x = None"
    by (simp add: ascii_def)
  have a: "format [CHR 0xFF] = Inl UnicodeDecodeError"
    using extraction_failure [where bs = "[CHR 0xFF]" and e = UnicodeDecodeError] decode_garbled
    by blast
  have b: "format ''not json'' = Inl JSONDecodeError"
    using extraction_failure [where bs = "''not json''" and e = JSONDecodeError
        and s = "ascii ''not json''"] d l
    by blast
  have c: "isl (format ?cs)"
    using extraction_failure [where bs = ?cs and s = "map of_char ?cs" and xs = ?xs] dc lc fc
    by blast
  have len: "2 < length ?argv" by simp
  have g: "gh unlisted (trace (start [ascii ''y''])) (fetch_args (?argv ! 1)) = Inr ''not json''"
    by (simp add: unlisted_def)
  have "main unlisted ?argv (start [ascii ''y''])
      = (Inl JSONDecodeError,
         (start [ascii ''y''])\<lparr>trace := trace (start [ascii ''y'']) @ [Run (fetch_args (?argv ! 1))]\<rparr>)"
    using extraction_failure [where bs = "''not json''" and e = JSONDecodeError
        and argv = ?argv and env = unlisted and w = "start [ascii ''y'']"] len g b
    by blast
  then have m: "main unlisted ?argv (start [ascii ''y''])
      = (Inl JSONDecodeError, \<lparr>trace = [Run (fetch_args (ascii ''org/repo''))], stdin = [ascii ''y'']\<rparr>)"
    by (simp add: start_def)
  from a b c m show ?thesis by blast
qed

text \<open>
  C7, as the code has it. The lister runs the tool once, with the command line
  \<^verbatim>\<open>gh pr list --json "number" -R <repo>\<close>: the repository is passed on unchanged,
  and the field selection is the name \<^verbatim>\<open>number\<close> between two double quote
  characters, which are part of the argument.
\<close>

theorem fetch_invocation:
  "fetch env repo w =
     (gh env (trace w)
        [ascii ''gh'', ascii ''pr'', ascii ''list'', ascii ''--json'',
         [34] @ ascii ''number'' @ [34], ascii ''-R'', repo],
      w\<lparr>trace := trace w @
         [Run [ascii ''gh'', ascii ''pr'', ascii ''list'', ascii ''--json'',
               [34] @ ascii ''number'' @ [34], ascii ''-R'', repo]]\<rparr>)"
  by (simp add: fetch_def run_def fetch_args_def)

text \<open>
  C7 as stated fails: the field selection argument is not the six characters
  \<^verbatim>\<open>number\<close>; it has eight characters.
\<close>

theorem fetch_invocation_counterexample:
  "fetch_args (ascii ''org/repo'') ! 4 \<noteq> ascii ''number''
   \<and> length (fetch_args (ascii ''org/repo'') ! 4) = 8"
  by (simp add: fetch_args_def ascii_def)

text \<open>
  C8, as the code has it. On an input it accepts (a JSON array of objects with a
  \<^verbatim>\<open>number\<close> field each) the extractor returns the values of these fields as they
  are, so every element of its output is an integer exactly when every \<^verbatim>\<open>number\<close>
  field is a JSON integer; nothing converts a value or checks that it is positive.
\<close>

theorem format_keeps_values:
  assumes "decode bs = Inr s" and "loads s = Inr (PyList xs)" and "format bs = Inr ns"
  shows "map number_field xs = map Some ns
    \<and> ((\<forall>n \<in> set ns. is_int n) \<longleftrightarrow> (\<forall>x \<in> set xs. \<exists>i. number_field x = Some (PyInt i)))"
proof -
  from assms have "numbers xs = Inr ns"
    by (simp add: format_def)
  then have m: "map number_field xs = map Some ns"
    by (simp add: numbers_iff)
  then have "number_field ` set xs = Some ` set ns"
    by (metis list.set_map)
  then have "(\<forall>n \<in> set ns. is_int n) \<longleftrightarrow> (\<forall>x \<in> set xs. \<exists>i. number_field x = Some (PyInt i))"
    unfolding is_int_iff by (auto simp: image_iff set_eq_iff) (metis option.inject)+
  with m show ?thesis by simp
qed

theorem format_keeps_values_witness:
  \<open>map number_field [PyDict [(ascii ''number'', PyInt 12)], PyDict [(ascii ''number'', PyInt (- 3))]]
     = map Some [PyInt 12, PyInt (- 3)]
   \<and> is_int (PyInt 12) \<and> is_int (PyInt (- 3))\<close>
proof -
  let ?bs = \<open>''[{"number":12},{"number":-3}]''\<close>
  let ?xs = "[PyDict [(ascii ''number'', PyInt 12)], PyDict [(ascii ''number'', PyInt (- 3))]]"
  have d: "decode ?bs = Inr (map of_char ?bs)"
    by (simp add: decode_def)
  have l: "loads (map of_char ?bs) = Inr (PyList ?xs)"
    by (simp add: json_eval)
  have f: "format ?bs = Inr [PyInt 12, PyInt (- 3)]"
    by (simp add: format_def json_eval)
  have i: "\<forall>x \<in> set ?xs. \<exists>i. number_field x = Some (PyInt i)"
    by (simp add: ascii_def)
  from format_keeps_values [OF d l f] i
  have "map number_field ?xs = map Some [PyInt 12, PyInt (- 3)]"
    and "\<forall>n \<in> set [PyInt 12, PyInt (- 3)]. is_int n"
    by blast+
  then show ?thesis by simp
qed

text \<open>
  C8 as stated fails: a \<^verbatim>\<open>number\<close> field that holds a string comes out as that
  string.
\<close>

theorem format_keeps_values_counterexample:
  \<open>format ''[{"number":"x"}]'' = Inr [PyStr (ascii ''x'')] \<and> \<not> is_int (PyStr (ascii ''x''))\<close>
  by (simp add: format_def json_eval)

text \<open>
  C9, as the code has it. On valid JSON whose top-level value is not an array the
  extractor raises \<^verbatim>\<open>TypeError\<close> for a number, \<^verbatim>\<open>true\<close>, \<^verbatim>\<open>false\<close>,
  \<^verbatim>\<open>null\<close>, a string that is not empty and an object that is not empty, and it
  returns the empty list for the empty string and for the empty object; on an array with
  an element that is not an object it raises.
\<close>

theorem format_of_other_values:
  assumes "decode bs = Inr s" and "loads s = Inr v"
  shows "(v = PyNone \<or> (\<exists>b. v = PyBool b) \<or> (\<exists>i. v = PyInt i) \<or> (\<exists>t. v = PyFloat t)
            \<longrightarrow> format bs = Inl TypeError)
    \<and> (\<forall>t. v = PyStr t \<longrightarrow> format bs = (if t = [] then Inr [] else Inl TypeError))
    \<and> (\<forall>kvs. v = PyDict kvs \<longrightarrow> format bs = (if kvs = [] then Inr [] else Inl TypeError))
    \<and> (\<forall>xs. v = PyList xs \<and> (\<exists>x \<in> set xs. \<forall>kvs. x \<noteq> PyDict kvs) \<longrightarrow> isl (format bs))"
proof -
  have "isl (format bs)" if "v = PyList xs" "x \<in> set xs" "\<forall>kvs. x \<noteq> PyDict kvs" for xs x
  proof -
    from that(3) have "number_field x = None" by (cases x) auto
    with that(2) obtain e where "numbers xs = Inl e"
      using numbers_fails [of xs] by blast
    with assms that(1) show ?thesis by (simp add: format_def)
  qed
  moreover have "format bs = (if t = [] then Inr [] else Inl TypeError)" if "v = PyStr t" for t
    using assms that numbers_of_strings [of "\<lambda>c. [c]" t] by (simp add: format_def)
  moreover have "format bs = (if kvs = [] then Inr [] else Inl TypeError)" if "v = PyDict kvs" for kvs
    using assms that numbers_of_strings [of fst kvs] by (simp add: format_def)
  moreover have "format bs = Inl TypeError"
    if "v = PyNone \<or> (\<exists>b. v = PyBool b) \<or> (\<exists>i. v = PyInt i) \<or> (\<exists>t. v = PyFloat t)"
    using assms that by (auto simp: format_def)
  ultimately show ?thesis by blast
qed

theorem format_of_other_values_witness:
  \<open>format ''7'' = Inl TypeError \<and> format ''"ab"'' = Inl TypeError \<and> format ''""'' = Inr []
   \<and> format ''{"number":1}'' = Inl TypeError \<and> format ''{}'' = Inr []
   \<and> isl (format ''[{"number":1},2]'')\<close>
proof -
  have d1: "decode ''7'' = Inr (map of_char ''7'')"
    by (simp add: decode_def)
  have d2: \<open>decode ''"ab"'' = Inr (map of_char ''"ab"'')\<close>
    by (simp add: decode_def)
  have d3: \<open>decode ''""'' = Inr (map of_char ''""'')\<close>
    by (simp add: decode_def)
  have d4: \<open>decode ''{"number":1}'' = Inr (map of_char ''{"number":1}'')\<close>
    by (simp add: decode_def)
  have d5: "decode ''{}'' = Inr (map of_char ''{}'')"
    by (simp add: decode_def)
  have d6: \<open>decode ''[{"number":1},2]'' = Inr (map of_char ''[{"number":1},2]'')\<close>
    by (simp add: decode_def)
  have l1: "loads (map of_char ''7'') = Inr (PyInt 7)"
    by (simp add: json_eval)
  have l2: \<open>loads (map of_char ''"ab"'') = Inr (PyStr (ascii ''ab''))\<close>
    by (simp add: json_eval)
  have l3: \<open>loads (map of_char ''""'') = Inr (PyStr [])\<close>
    by (simp add: json_eval)
  have l4: \<open>loads (map of_char ''{"number":1}'') = Inr (PyDict [(ascii ''number'', PyInt 1)])\<close>
    by (simp add: json_eval)
  have l5: "loads (map of_char ''{}'') = Inr (PyDict [])"
    by (simp add: json_eval)
  have l6: \<open>loads (map of_char ''[{"number":1},2]'')
      = Inr (PyList [PyDict [(ascii ''number'', PyInt 1)], PyInt 2])\<close>
    by (simp add: json_eval)
  have "format ''7'' = Inl TypeError"
    using format_of_other_values [OF d1 l1] by blast
  moreover have \<open>format ''"ab"'' = Inl TypeError\<close>
    using format_of_other_values [OF d2 l2] by (simp add: ascii_def)
  moreover have \<open>format ''""'' = Inr []\<close>
    using format_of_other_values [OF d3 l3] by simp
  moreover have \<open>format ''{"number":1}'' = Inl TypeError\<close>
    using format_of_other_values [OF d4 l4] by simp
  moreover have "format ''{}'' = Inr []"
    using format_of_other_values [OF d5 l5] by simp
  moreover have \<open>isl (format ''[{"number":1},2]'')\<close>
    using format_of_other_values [OF d6 l6] by simp
  ultimately show ?thesis by blast
qed

text \<open>
  C9 as stated fails: \<^verbatim>\<open>{}\<close> is valid JSON, its top-level value is an object and
  not an array, and the extractor returns the empty list.
\<close>

theorem format_of_other_values_counterexample:
  "decode ''{}'' = Inr (ascii ''{}'') \<and> loads (ascii ''{}'') = Inr (PyDict []) \<and> format ''{}'' = Inr []"
  by (simp add: format_def json_eval)

text \<open>
  C10. Started with fewer than two arguments after the script's name, the program raises
  \<^verbatim>\<open>IndexError\<close> and the world is as before: no tool was run, nothing was read
  from standard input, no comment was posted.
\<close>

theorem too_few_arguments:
  "length argv < 3 \<Longrightarrow> main env argv w = (Inl IndexError, w)"
  by (rule main_short)

theorem too_few_arguments_witness:
  "main scripted [ascii ''comment.py'', ascii ''org/repo''] (start [ascii ''y''])
     = (Inl IndexError, start [ascii ''y''])"
  by (rule too_few_arguments) simp

end
